theory Spec2Isabelle
  imports Complex_Main
begin

section \<open>Calendar data (config.js)\<close>

text \<open>
  The table \<open>monthDaysInBSYear\<close> of config.js: for each supported Bikram Sambat year the
  lengths of its twelve months. A JavaScript object with integer-like keys enumerates
  them in ascending order, which is the order of the source text, so the association
  list below is both the lookup table (through \<open>map_of\<close>) and the key order that
  \<open>Object.keys\<close> returns.
\<close>

definition monthDaysInBSYear :: "(int \<times> int list) list" where
  "monthDaysInBSYear = [
    (2000, [30, 32, 31, 32, 31, 30, 30, 30, 29, 30, 29, 31]),
    (2001, [31, 31, 32, 31, 31, 31, 30, 29, 30, 29, 30, 30]),
    (2002, [31, 31, 32, 32, 31, 30, 30, 29, 30, 29, 30, 30]),
    (2003, [31, 32, 31, 32, 31, 30, 30, 30, 29, 29, 30, 31]),
    (2004, [30, 32, 31, 32, 31, 30, 30, 30, 29, 30, 29, 31]),
    (2005, [31, 31, 32, 31, 31, 31, 30, 29, 30, 29, 30, 30]),
    (2006, [31, 31, 32, 32, 31, 30, 30, 29, 30, 29, 30, 30]),
    (2007, [31, 32, 31, 32, 31, 30, 30, 30, 29, 29, 30, 31]),
    (2008, [31, 31, 31, 32, 31, 31, 29, 30, 30, 29, 29, 31]),
    (2009, [31, 31, 32, 31, 31, 31, 30, 29, 30, 29, 30, 30]),
    (2010, [31, 31, 32, 32, 31, 30, 30, 29, 30, 29, 30, 30]),
    (2011, [31, 32, 31, 32, 31, 30, 30, 30, 29, 29, 30, 31]),
    (2012, [31, 31, 31, 32, 31, 31, 29, 30, 30, 29, 30, 30]),
    (2013, [31, 31, 32, 31, 31, 31, 30, 29, 30, 29, 30, 30]),
    (2014, [31, 31, 32, 32, 31, 30, 30, 29, 30, 29, 30, 30]),
    (2015, [31, 32, 31, 32, 31, 30, 30, 30, 29, 29, 30, 31]),
    (2016, [31, 31, 31, 32, 31, 31, 29, 30, 30, 29, 30, 30]),
    (2017, [31, 31, 32, 31, 31, 31, 30, 29, 30, 29, 30, 30]),
    (2018, [31, 32, 31, 32, 31, 30, 30, 29, 30, 29, 30, 30]),
    (2019, [31, 32, 31, 32, 31, 30, 30, 30, 29, 30, 29, 31]),
    (2020, [31, 31, 31, 32, 31, 31, 30, 29, 30, 29, 30, 30]),
    (2021, [31, 31, 32, 31, 31, 31, 30, 29, 30, 29, 30, 30]),
    (2022, [31, 32, 31, 32, 31, 30, 30, 30, 29, 29, 30, 30]),
    (2023, [31, 32, 31, 32, 31, 30, 30, 30, 29, 30, 29, 31]),
    (2024, [31, 31, 31, 32, 31, 31, 30, 29, 30, 29, 30, 30]),
    (2025, [31, 31, 32, 31, 31, 31, 30, 29, 30, 29, 30, 30]),
    (2026, [31, 32, 31, 32, 31, 30, 30, 30, 29, 29, 30, 31]),
    (2027, [30, 32, 31, 32, 31, 30, 30, 30, 29, 30, 29, 31]),
    (2028, [31, 31, 32, 31, 31, 31, 30, 29, 30, 29, 30, 30]),
    (2029, [31, 31, 32, 31, 32, 30, 30, 29, 30, 29, 30, 30]),
    (2030, [31, 32, 31, 32, 31, 30, 30, 30, 29, 29, 30, 31]),
    (2031, [30, 32, 31, 32, 31, 30, 30, 30, 29, 30, 29, 31]),
    (2032, [31, 31, 32, 31, 31, 31, 30, 29, 30, 29, 30, 30]),
    (2033, [31, 31, 32, 32, 31, 30, 30, 29, 30, 29, 30, 30]),
    (2034, [31, 32, 31, 32, 31, 30, 30, 30, 29, 29, 30, 31]),
    (2035, [30, 32, 31, 32, 31, 31, 29, 30, 30, 29, 29, 31]),
    (2036, [31, 31, 32, 31, 31, 31, 30, 29, 30, 29, 30, 30]),
    (2037, [31, 31, 32, 32, 31, 30, 30, 29, 30, 29, 30, 30]),
    (2038, [31, 32, 31, 32, 31, 30, 30, 30, 29, 29, 30, 31]),
    (2039, [31, 31, 31, 32, 31, 31, 29, 30, 30, 29, 30, 30]),
    (2040, [31, 31, 32, 31, 31, 31, 30, 29, 30, 29, 30, 30]),
    (2041, [31, 31, 32, 32, 31, 30, 30, 29, 30, 29, 30, 30]),
    (2042, [31, 32, 31, 32, 31, 30, 30, 30, 29, 29, 30, 31]),
    (2043, [31, 31, 31, 32, 31, 31, 29, 30, 30, 29, 30, 30]),
    (2044, [31, 31, 32, 31, 31, 31, 30, 29, 30, 29, 30, 30]),
    (2045, [31, 32, 31, 32, 31, 30, 30, 29, 30, 29, 30, 30]),
    (2046, [31, 32, 31, 32, 31, 30, 30, 30, 29, 29, 30, 31]),
    (2047, [31, 31, 31, 32, 31, 31, 30, 29, 30, 29, 30, 30]),
    (2048, [31, 31, 32, 31, 31, 31, 30, 29, 30, 29, 30, 30]),
    (2049, [31, 32, 31, 32, 31, 30, 30, 30, 29, 29, 30, 30]),
    (2050, [31, 32, 31, 32, 31, 30, 30, 30, 29, 30, 29, 31]),
    (2051, [31, 31, 31, 32, 31, 31, 30, 29, 30, 29, 30, 30]),
    (2052, [31, 31, 32, 31, 31, 31, 30, 29, 30, 29, 30, 30]),
    (2053, [31, 32, 31, 32, 31, 30, 30, 30, 29, 29, 30, 30]),
    (2054, [31, 32, 31, 32, 31, 30, 30, 30, 29, 30, 29, 31]),
    (2055, [31, 31, 32, 31, 31, 31, 30, 29, 30, 29, 30, 30]),
    (2056, [31, 31, 32, 31, 32, 30, 30, 29, 30, 29, 30, 30]),
    (2057, [31, 32, 31, 32, 31, 30, 30, 30, 29, 29, 30, 31]),
    (2058, [30, 32, 31, 32, 31, 30, 30, 30, 29, 30, 29, 31]),
    (2059, [31, 31, 32, 31, 31, 31, 30, 29, 30, 29, 30, 30]),
    (2060, [31, 31, 32, 32, 31, 30, 30, 29, 30, 29, 30, 30]),
    (2061, [31, 32, 31, 32, 31, 30, 30, 30, 29, 29, 30, 31]),
    (2062, [30, 32, 31, 32, 31, 31, 29, 30, 29, 30, 29, 31]),
    (2063, [31, 31, 32, 31, 31, 31, 30, 29, 30, 29, 30, 30]),
    (2064, [31, 31, 32, 32, 31, 30, 30, 29, 30, 29, 30, 30]),
    (2065, [31, 32, 31, 32, 31, 30, 30, 30, 29, 29, 30, 31]),
    (2066, [31, 31, 31, 32, 31, 31, 29, 30, 30, 29, 29, 31]),
    (2067, [31, 31, 32, 31, 31, 31, 30, 29, 30, 29, 30, 30]),
    (2068, [31, 31, 32, 32, 31, 30, 30, 29, 30, 29, 30, 30]),
    (2069, [31, 32, 31, 32, 31, 30, 30, 30, 29, 29, 30, 31]),
    (2070, [31, 31, 31, 32, 31, 31, 29, 30, 30, 29, 30, 30]),
    (2071, [31, 31, 32, 31, 31, 31, 30, 29, 30, 29, 30, 30]),
    (2072, [31, 32, 31, 32, 31, 30, 30, 29, 30, 29, 30, 30]),
    (2073, [31, 32, 31, 32, 31, 30, 30, 30, 29, 29, 30, 31]),
    (2074, [31, 31, 31, 32, 31, 31, 30, 29, 30, 29, 30, 30]),
    (2075, [31, 31, 32, 31, 31, 31, 30, 29, 30, 29, 30, 30]),
    (2076, [31, 32, 31, 32, 31, 30, 30, 30, 29, 29, 30, 30]),
    (2077, [31, 32, 31, 32, 31, 30, 30, 30, 29, 30, 29, 31]),
    (2078, [31, 31, 31, 32, 31, 31, 30, 29, 30, 29, 30, 30]),
    (2079, [31, 31, 32, 31, 31, 31, 30, 29, 30, 29, 30, 30]),
    (2080, [31, 32, 31, 32, 31, 30, 30, 30, 29, 29, 30, 30]),
    (2081, [31, 31, 32, 32, 31, 30, 30, 30, 29, 30, 30, 30]),
    (2082, [30, 32, 31, 32, 31, 30, 30, 30, 29, 30, 30, 30]),
    (2083, [31, 31, 32, 31, 31, 30, 30, 30, 29, 30, 30, 30]),
    (2084, [31, 31, 32, 31, 31, 30, 30, 30, 29, 30, 30, 30]),
    (2085, [31, 32, 31, 32, 30, 31, 30, 30, 29, 30, 30, 30]),
    (2086, [30, 32, 31, 32, 31, 30, 30, 30, 29, 30, 30, 30]),
    (2087, [31, 31, 32, 31, 31, 31, 30, 30, 29, 30, 30, 30]),
    (2088, [30, 31, 32, 32, 30, 31, 30, 30, 29, 30, 30, 30]),
    (2089, [30, 32, 31, 32, 31, 30, 30, 30, 29, 30, 30, 30]),
    (2090, [30, 32, 31, 32, 31, 30, 30, 30, 29, 30, 30, 30])
  ]"

text \<open>JavaScript strings are sequences of UTF-16 code units; the Devanagari names of
  config.js lie in the basic plane, one unit per character. Error messages and number
  renderings are plain ASCII and are kept as HOL strings; \<open>ascii\<close> embeds them.\<close>

type_synonym ustring = "nat list"

definition ascii :: "string \<Rightarrow> ustring" where
  "ascii s = map of_char s"

text \<open>The objects \<open>months\<close> and \<open>weekdays\<close>: Devanagari name (key) and romanized name
  (value), in source order.\<close>

definition months :: "(ustring \<times> ustring) list" where
  "months = [
    ([0x92C, 0x948, 0x936, 0x93E, 0x916], ascii ''Baisakh''),
    ([0x91C, 0x947, 0x920], ascii ''Jeth''),
    ([0x905, 0x938, 0x93E, 0x930], ascii ''Asar''),
    ([0x936, 0x94D, 0x930, 0x93E, 0x935, 0x923], ascii ''Shrawan''),
    ([0x92D, 0x93E, 0x926, 0x94D, 0x930], ascii ''Bhadra''),
    ([0x906, 0x936, 0x94D, 0x935, 0x93F, 0x928], ascii ''Ashwin''),
    ([0x915, 0x93E, 0x930, 0x94D, 0x924, 0x93F, 0x915], ascii ''Kartik''),
    ([0x92E, 0x902, 0x938, 0x93F, 0x930], ascii ''Mangsir''),
    ([0x92A, 0x941, 0x937], ascii ''Poush''),
    ([0x92E, 0x93E, 0x918], ascii ''Magh''),
    ([0x92B, 0x93E, 0x932, 0x94D, 0x917, 0x941, 0x923], ascii ''Falgun''),
    ([0x91A, 0x948, 0x924], ascii ''Chaitra'')
  ]"

definition weekdays :: "(ustring \<times> ustring) list" where
  "weekdays = [
    ([0x906, 0x907, 0x924, 0x92C, 0x93E, 0x930], ascii ''Aaitabar''),
    ([0x938, 0x94B, 0x92E, 0x92C, 0x93E, 0x930], ascii ''Sombar''),
    ([0x92E, 0x902, 0x917, 0x932, 0x935, 0x93E, 0x930], ascii ''Mangalbar''),
    ([0x92C, 0x941, 0x927, 0x92C, 0x93E, 0x930], ascii ''Budhbar''),
    ([0x92C, 0x93F, 0x939, 0x940, 0x92C, 0x93E, 0x930], ascii ''Bihibar''),
    ([0x936, 0x941, 0x915, 0x94D, 0x930, 0x92C, 0x93E, 0x930], ascii ''Shukrabar''),
    ([0x936, 0x928, 0x93F, 0x935, 0x93E, 0x930], ascii ''Shanibar'')
  ]"

definition weekdaysLocal :: "ustring list" where
  "weekdaysLocal = map ascii
     [''Sunday'', ''Monday'', ''Tuesday'', ''Wednesday'', ''Thursday'', ''Friday'', ''Saturday'']"

definition epochBS :: "int list" where
  "epochBS = [2000, 1, 1]"

text \<open>Julian day numbers are JavaScript numbers. Every value the conversion computes from
  a whole day is an integer plus one half, far below \<open>2^53\<close>, so the floating-point
  operations involved are exact and the rationals model them without loss.\<close>

definition epochJulianDays :: rat where
  "epochJulianDays = 4861657 / 2"

section \<open>The host's Date and the Julian-day utility\<close>

text \<open>A \<open>Date\<close> is its time value: milliseconds since 1970-01-01T00:00:00Z (the invalid
  date is not modelled).\<close>

type_synonym Date = int

definition msPerDay :: int where
  "msPerDay = 86400000"

text \<open>Modelled from the spec: the host platform's parsing of a date-only ISO string,
  \<open>new Date("YYYY-MM-DD")\<close>, which is midnight UTC of that Gregorian day. The day
  number follows ECMA-262 (\<open>DayFromYear\<close>, leap years, month offsets); months are
  1 to 12.\<close>

definition DayFromYear :: "int \<Rightarrow> int" where
  "DayFromYear y = 365 * (y - 1970) + (y - 1969) div 4 - (y - 1901) div 100 + (y - 1601) div 400"

definition InLeapYear :: "int \<Rightarrow> bool" where
  "InLeapYear y = (y mod 4 = 0 \<and> (y mod 100 \<noteq> 0 \<or> y mod 400 = 0))"

definition DayWithinYear :: "int \<Rightarrow> int \<Rightarrow> int" where
  "DayWithinYear y m =
     [0, 31, 59, 90, 120, 151, 181, 212, 243, 273, 304, 334] ! nat (m - 1)
     + (if InLeapYear y \<and> 2 < m then 1 else 0)"

definition Date_ISO :: "int \<Rightarrow> int \<Rightarrow> int \<Rightarrow> Date" where
  "Date_ISO y m d = (DayFromYear y + DayWithinYear y m + d - 1) * msPerDay"

text \<open>\<open>getDay\<close>, read in UTC (1970-01-01 was a Thursday).\<close>

definition getDay :: "Date \<Rightarrow> nat" where
  "getDay t = nat ((t div msPerDay + 4) mod 7)"

definition epochADStart :: Date where
  "epochADStart = Date_ISO 1943 4 14"

definition epochADEnd :: Date where
  "epochADEnd = Date_ISO 2034 4 13"

text \<open>Modelled from the spec: the external package \<open>julian\<close> (section 6 of the
  specification), the continuous count of days with the Unix epoch at 2440587.5.
  \<open>julian\<close> maps a Date to its Julian day number, \<open>julian_toDate\<close> is the inverse;
  the Date constructor truncates a fractional time value towards zero.\<close>

definition julian :: "Date \<Rightarrow> rat" where
  "julian t = of_int t / of_int msPerDay + 4881175 / 2"

definition julian_toDate :: "rat \<Rightarrow> Date" where
  "julian_toDate j =
     (let t = (j - 4881175 / 2) * of_int msPerDay in if 0 \<le> t then \<lfloor>t\<rfloor> else \<lceil>t\<rceil>)"

section \<open>Errors (errors.js)\<close>

text \<open>\<open>Error\<close> is JavaScript's generic error, thrown by the code with a message;
  \<open>TypeError\<close> is what the runtime throws when a property of \<open>undefined\<close> is read.\<close>

datatype error =
    Error string
  | BSDateOutOfRangeError string
  | DateOutOfRangeError string
  | TypeError

section \<open>BSDate (bs-date.js)\<close>

record BSDate =
  year :: int
  month :: int
  day :: int

text \<open>An argument of the constructor may be missing (\<open>undefined\<close>); \<open>!x\<close> holds of a
  missing argument and of zero.\<close>

definition falsy :: "int option \<Rightarrow> bool" where
  "falsy x = (x = None \<or> x = Some 0)"

definition new_BSDate :: "int option \<Rightarrow> int option \<Rightarrow> int option \<Rightarrow> error + BSDate" where
  "new_BSDate y m d =
     (if falsy y \<or> falsy m \<or> falsy d then Inl (Error ''Year, month, and day are required'')
      else Inr \<lparr>year = the y, month = the m, day = the d\<rparr>)"

text \<open>Reading an array at an index: \<open>undefined\<close> (here \<open>None\<close>) outside the array. Every
  comparison with \<open>undefined\<close> is false.\<close>

definition js_index :: "'a list \<Rightarrow> int \<Rightarrow> 'a option" where
  "js_index xs i = (if 0 \<le> i \<and> i < int (length xs) then Some (xs ! nat i) else None)"

text \<open>\<open>xs.slice(0, e)\<close>: a negative end counts from the end of the array.\<close>

definition slice0 :: "'a list \<Rightarrow> int \<Rightarrow> 'a list" where
  "slice0 xs e = (if e < 0 then take (nat (int (length xs) + e)) xs else take (nat e) xs)"

definition validDate :: "BSDate \<Rightarrow> bool" where
  "validDate b =
     (case map_of monthDaysInBSYear (year b) of
        None \<Rightarrow> False
      | Some ms \<Rightarrow>
          0 < month b \<and> month b \<le> 12 \<and> 0 < day b \<and>
          (case js_index ms (month b - 1) of None \<Rightarrow> False | Some n \<Rightarrow> day b \<le> n))"

text \<open>Rendering of an integer as JavaScript's \<open>toString\<close> and template literals do.\<close>

fun string_of_nat :: "nat \<Rightarrow> string" where
  "string_of_nat n =
     (if n < 10 then [char_of (48 + n)] else string_of_nat (n div 10) @ [char_of (48 + n mod 10)])"

definition toString :: "int \<Rightarrow> string" where
  "toString i = (if i < 0 then CHR ''-'' # string_of_nat (nat (- i)) else string_of_nat (nat i))"

definition validateBSDate :: "BSDate \<Rightarrow> error + bool" where
  "validateBSDate b =
     (if \<not> validDate b then
        Inl (BSDateOutOfRangeError
          (''Year '' @ toString (year b) @ '' is out of valid range ('' @
           toString (fst (hd monthDaysInBSYear)) @ ''-'' @
           toString (fst (last monthDaysInBSYear)) @ '')''))
      else Inr True)"

text \<open>The loop over the complete years before the target year in \<open>#bsToJulianDays\<close>.
  Reading \<open>monthDaysInBSYear[year]\<close> for a year that is not a key gives \<open>undefined\<close>, and
  calling \<open>reduce\<close> on it throws.\<close>

function bsToJulianDays_years :: "int \<Rightarrow> int \<Rightarrow> rat \<Rightarrow> error + rat" where
  "bsToJulianDays_years y target julianDays =
     (if y < target then
        (case map_of monthDaysInBSYear y of
           None \<Rightarrow> Inl TypeError
         | Some ms \<Rightarrow> bsToJulianDays_years (y + 1) target (julianDays + of_int (sum_list ms)))
      else Inr julianDays)"
  by pat_completeness auto
termination
  by (relation "measure (\<lambda>(y, target, julianDays). nat (target - y))") auto

definition bsToJulianDays :: "BSDate \<Rightarrow> error + rat" where
  "bsToJulianDays b =
     (case bsToJulianDays_years (epochBS ! 0) (year b) epochJulianDays of
        Inl e \<Rightarrow> Inl e
      | Inr julianDays \<Rightarrow>
          (case map_of monthDaysInBSYear (year b) of
             None \<Rightarrow> Inl TypeError
           | Some ms \<Rightarrow>
               Inr (julianDays + of_int (sum_list (slice0 ms (month b - 1)))
                    + of_int (day b - 1))))"

definition toAD :: "BSDate \<Rightarrow> error + Date" where
  "toAD b =
     (case validateBSDate b of
        Inl e \<Rightarrow> Inl e
      | Inr _ \<Rightarrow> (case bsToJulianDays b of Inl e \<Rightarrow> Inl e | Inr j \<Rightarrow> Inr (julian_toDate j)))"

subsection \<open>Facts about the table\<close>

lemma monthDaysInBSYear_keys: "map fst monthDaysInBSYear = [2000..2090]"
  by (simp add: monthDaysInBSYear_def)

lemma monthDaysInBSYear_rows:
  "\<forall>(y, ms) \<in> set monthDaysInBSYear. length ms = 12 \<and> (\<forall>n \<in> set ms. 29 \<le> n \<and> n \<le> 32)"
  by (simp add: monthDaysInBSYear_def)

lemma map_of_Some_range:
  assumes "map_of monthDaysInBSYear y = Some ms"
  shows "2000 \<le> y \<and> y \<le> 2090"
proof -
  from assms have "(y, ms) \<in> set monthDaysInBSYear" by (rule map_of_SomeD)
  then have "y \<in> set (map fst monthDaysInBSYear)" by force
  then have "y \<in> set [2000..2090]" by (simp only: monthDaysInBSYear_keys)
  then show ?thesis by (simp only: set_upto atLeastAtMost_iff)
qed

subsection \<open>From a Julian day number to a BS date\<close>

text \<open>The year scan of \<open>#julianDaysToBS\<close>. The loop condition reads
  \<open>monthDaysInBSYear[year]\<close> and calls \<open>reduce\<close> on it, which throws once \<open>year\<close> is
  not a key; since the keys are bounded the loop always ends.\<close>

function julianDaysToBS_years :: "int \<Rightarrow> rat \<Rightarrow> error + (int \<times> rat)" where
  "julianDaysToBS_years y remainingDays =
     (case map_of monthDaysInBSYear y of
        None \<Rightarrow> Inl TypeError
      | Some ms \<Rightarrow>
          if remainingDays > of_int (sum_list ms)
          then julianDaysToBS_years (y + 1) (remainingDays - of_int (sum_list ms))
          else Inr (y, remainingDays))"
  by pat_completeness auto
termination
  by (relation "measure (\<lambda>(y, remainingDays). nat (2091 - y))") (auto dest: map_of_Some_range)

text \<open>The month scan. Past the end of the row the length read is \<open>undefined\<close>, the
  comparison is false and the loop stops.\<close>

function julianDaysToBS_months :: "int list \<Rightarrow> int \<Rightarrow> rat \<Rightarrow> int \<times> rat" where
  "julianDaysToBS_months ms m remainingDays =
     (case js_index ms (m - 1) of
        None \<Rightarrow> (m, remainingDays)
      | Some n \<Rightarrow>
          if remainingDays > of_int n
          then julianDaysToBS_months ms (m + 1) (remainingDays - of_int n)
          else (m, remainingDays))"
  by pat_completeness auto
termination
  by (relation "measure (\<lambda>(ms, m, remainingDays). nat (int (length ms) + 1 - m))")
     (auto simp: js_index_def split: if_splits)

definition julianDaysToBS :: "rat \<Rightarrow> error + (int \<times> int \<times> int)" where
  "julianDaysToBS julianDays =
     (case julianDaysToBS_years (epochBS ! 0) (julianDays - epochJulianDays) of
        Inl e \<Rightarrow> Inl e
      | Inr (y, remainingDays) \<Rightarrow>
          (case map_of monthDaysInBSYear y of
             None \<Rightarrow> Inl TypeError
           | Some ms \<Rightarrow>
               (case julianDaysToBS_months ms 1 remainingDays of
                  (m, remainingDays') \<Rightarrow> Inr (y, m, \<lceil>remainingDays' + 1\<rceil>))))"

definition fromAD :: "Date \<Rightarrow> error + BSDate" where
  "fromAD adDate =
     (case julianDaysToBS (julian adDate) of
        Inl e \<Rightarrow> Inl e
      | Inr (y, m, d) \<Rightarrow> new_BSDate (Some y) (Some m) (Some d))"

subsection \<open>Presentation\<close>

text \<open>\<open>monthName\<close> indexes the keys or the values of \<open>months\<close>; outside the twelve
  entries the result is \<open>undefined\<close> (\<open>None\<close>).\<close>

definition monthName :: "BSDate \<Rightarrow> bool \<Rightarrow> ustring option" where
  "monthName b romanized =
     (if romanized then js_index (map snd months) (month b - 1)
      else js_index (map fst months) (month b - 1))"

text \<open>number-utils.js: every character of the decimal rendering is looked up in
  \<open>NEPALI_DIGITS\<close>; a character without an entry (the minus sign) maps to
  \<open>undefined\<close>, which \<open>join\<close> renders as the empty string.\<close>

definition NEPALI_DIGITS :: "char \<Rightarrow> ustring option" where
  "NEPALI_DIGITS = map_of [
     (CHR ''0'', [0x966]), (CHR ''1'', [0x967]), (CHR ''2'', [0x968]), (CHR ''3'', [0x969]),
     (CHR ''4'', [0x96A]), (CHR ''5'', [0x96B]), (CHR ''6'', [0x96C]), (CHR ''7'', [0x96D]),
     (CHR ''8'', [0x96E]), (CHR ''9'', [0x96F])]"

definition Number_toNepali :: "int \<Rightarrow> ustring" where
  "Number_toNepali n =
     concat (map (\<lambda>digit. case NEPALI_DIGITS digit of None \<Rightarrow> [] | Some s \<Rightarrow> s) (toString n))"

text \<open>The template literal of \<open>toNepali\<close> renders \<open>undefined\<close> as the word itself.\<close>

definition toNepali :: "BSDate \<Rightarrow> ustring" where
  "toNepali b =
     (case monthName b False of None \<Rightarrow> ascii ''undefined'' | Some s \<Rightarrow> s)
     @ ascii '' '' @ Number_toNepali (day b) @ ascii '', '' @ Number_toNepali (year b)"

definition dayName :: "BSDate \<Rightarrow> bool \<Rightarrow> bool \<Rightarrow> error + ustring option" where
  "dayName b romanized localized =
     (if romanized \<and> localized
      then Inl (Error ''You must provide exactly one of :romanized or :localized'')
      else
        (case toAD b of
           Inl e \<Rightarrow> Inl e
         | Inr adDate \<Rightarrow>
             if localized then Inr (js_index weekdaysLocal (int (getDay adDate)))
             else if romanized then Inr (js_index (map snd weekdays) (int (getDay adDate)))
             else Inr (js_index (map fst weekdays) (int (getDay adDate)))))"

section \<open>Date.prototype.toBS (date-utils.js)\<close>

definition toBS :: "Date \<Rightarrow> error + BSDate" where
  "toBS t =
     (if t < epochADStart \<or> t > epochADEnd then Inl (DateOutOfRangeError ''Date is out of range'')
      else fromAD t)"

section \<open>Auxiliary notions for the proofs\<close>

text \<open>The days of a year of the table, the days of the years from \<open>y\<close> up to but
  excluding \<open>target\<close>, and the 0-based position of a date within its year. They are
  not part of the program.\<close>

definition yearDays :: "int \<Rightarrow> int" where
  "yearDays y = (case map_of monthDaysInBSYear y of None \<Rightarrow> 0 | Some ms \<Rightarrow> sum_list ms)"

definition daysBetween :: "int \<Rightarrow> int \<Rightarrow> int" where
  "daysBetween y target = sum_list (map yearDays [y..target - 1])"

definition dayInYear :: "int list \<Rightarrow> BSDate \<Rightarrow> int" where
  "dayInYear ms b = sum_list (take (nat (month b - 1)) ms) + (day b - 1)"

section \<open>The conversion from BS dates in closed form\<close>

lemma map_of_in_range:
  assumes "2000 \<le> y" "y \<le> 2090"
  shows "\<exists>ms. map_of monthDaysInBSYear y = Some ms"
proof -
  from assms have "y \<in> set [2000..2090]" by (simp only: set_upto atLeastAtMost_iff)
  then have "y \<in> fst ` set monthDaysInBSYear"
    by (simp only: monthDaysInBSYear_keys [symmetric] set_map)
  then have "map_of monthDaysInBSYear y \<noteq> None" by (simp only: map_of_eq_None_iff not_not)
  then show ?thesis by auto
qed

lemma map_of_key_iff: "(\<exists>ms. map_of monthDaysInBSYear y = Some ms) \<longleftrightarrow> 2000 \<le> y \<and> y \<le> 2090"
  using map_of_in_range map_of_Some_range by blast

lemma row_props:
  assumes "map_of monthDaysInBSYear y = Some ms"
  shows "length ms = 12" and "\<And>n. n \<in> set ms \<Longrightarrow> 29 \<le> n \<and> n \<le> 32"
proof -
  from assms have "(y, ms) \<in> set monthDaysInBSYear" by (rule map_of_SomeD)
  with monthDaysInBSYear_rows have *: "length ms = 12 \<and> (\<forall>n \<in> set ms. 29 \<le> n \<and> n \<le> 32)"
    by blast
  from * show "length ms = 12" by simp
  from * show "\<And>n. n \<in> set ms \<Longrightarrow> 29 \<le> n \<and> n \<le> 32" by simp
qed

lemma yearDays_nonneg: "0 \<le> yearDays y"
proof (cases "map_of monthDaysInBSYear y")
  case None
  then show ?thesis by (simp add: yearDays_def)
next
  case (Some ms)
  then have "\<And>n. n \<in> set ms \<Longrightarrow> 0 \<le> n" using row_props(2) by force
  then have "0 \<le> sum_list ms" by (rule sum_list_nonneg)
  with Some show ?thesis by (simp add: yearDays_def)
qed

lemma daysBetween_nonneg: "0 \<le> daysBetween y target"
  unfolding daysBetween_def by (rule sum_list_nonneg) (auto simp: yearDays_nonneg)

lemma daysBetween_empty: "target \<le> y \<Longrightarrow> daysBetween y target = 0"
  by (simp add: daysBetween_def)

lemma daysBetween_step: "y < target \<Longrightarrow> daysBetween y target = yearDays y + daysBetween (y + 1) target"
  by (simp add: daysBetween_def upto_rec1)

lemma daysBetween_split:
  assumes "a \<le> b" "b \<le> c"
  shows "daysBetween a c = daysBetween a b + daysBetween b c"
proof -
  have "[a..c - 1] = [a..b - 1] @ [b..c - 1]"
    using assms upto_split1 [of a b "c - 1"]
    by (cases "b = c") (auto)
  then show ?thesis by (simp add: daysBetween_def)
qed

lemma bsToJulianDays_years_closed:
  "2000 \<le> y \<Longrightarrow> target \<le> 2091 \<Longrightarrow>
   bsToJulianDays_years y target jd = Inr (jd + of_int (daysBetween y target))"
proof (induction y target jd rule: bsToJulianDays_years.induct)
  case (1 y target julianDays)
  show ?case
  proof (cases "y < target")
    case False
    then show ?thesis by (simp add: daysBetween_empty)
  next
    case True
    with "1.prems" obtain ms where ms: "map_of monthDaysInBSYear y = Some ms"
      using map_of_in_range [of y] by auto
    have "bsToJulianDays_years (y + 1) target (julianDays + of_int (sum_list ms)) =
          Inr (julianDays + of_int (sum_list ms) + of_int (daysBetween (y + 1) target))"
      using "1.IH" [OF True ms] "1.prems" by simp
    moreover have "daysBetween y target = sum_list ms + daysBetween (y + 1) target"
      using daysBetween_step [OF True] ms by (simp add: yearDays_def)
    ultimately show ?thesis using True ms by simp
  qed
qed

lemma validDate_iff:
  "validDate b \<longleftrightarrow>
     (\<exists>ms. map_of monthDaysInBSYear (year b) = Some ms \<and> 1 \<le> month b \<and> month b \<le> 12 \<and>
           1 \<le> day b \<and> day b \<le> ms ! nat (month b - 1))"
proof (cases "map_of monthDaysInBSYear (year b)")
  case None
  then show ?thesis by (simp add: validDate_def)
next
  case (Some ms)
  then have "length ms = 12" by (rule row_props(1))
  with Some show ?thesis by (auto simp: validDate_def js_index_def)
qed

lemma sum_list_take_mono:
  fixes xs :: "int list"
  assumes "\<And>n. n \<in> set xs \<Longrightarrow> 0 \<le> n" "i \<le> j"
  shows "sum_list (take i xs) \<le> sum_list (take j xs)"
proof -
  from \<open>i \<le> j\<close> have "take j xs = take i xs @ take (j - i) (drop i xs)"
    using take_add [of i "j - i" xs] by simp
  moreover have "0 \<le> sum_list (take (j - i) (drop i xs))"
    by (rule sum_list_nonneg) (auto dest!: in_set_takeD in_set_dropD intro: assms(1))
  ultimately show ?thesis by simp
qed

lemma sum_list_take_Suc:
  fixes xs :: "int list"
  shows "i < length xs \<Longrightarrow> sum_list (take (Suc i) xs) = sum_list (take i xs) + xs ! i"
  by (simp add: take_Suc_conv_app_nth)

lemma bsToJulianDays_valid:
  assumes "validDate b" "map_of monthDaysInBSYear (year b) = Some ms"
  shows "bsToJulianDays b =
           Inr (epochJulianDays + of_int (daysBetween 2000 (year b)) + of_int (dayInYear ms b))"
proof -
  from assms have y: "2000 \<le> year b" "year b \<le> 2090" using map_of_Some_range by auto
  from assms have m: "1 \<le> month b" by (auto simp: validDate_iff)
  have "bsToJulianDays_years 2000 (year b) epochJulianDays =
          Inr (epochJulianDays + of_int (daysBetween 2000 (year b)))"
    using y by (intro bsToJulianDays_years_closed) auto
  then show ?thesis
    using assms(2) m by (simp add: bsToJulianDays_def epochBS_def slice0_def dayInYear_def)
qed

lemma dayInYear_bounds:
  assumes "validDate b" "map_of monthDaysInBSYear (year b) = Some ms"
  shows "0 \<le> dayInYear ms b" "dayInYear ms b < yearDays (year b)"
proof -
  have len: "length ms = 12" and pos: "\<And>n. n \<in> set ms \<Longrightarrow> 0 \<le> n"
    using row_props [OF assms(2)] by force+
  from assms have v: "1 \<le> month b" "month b \<le> 12" "1 \<le> day b" "day b \<le> ms ! nat (month b - 1)"
    by (auto simp: validDate_iff)
  have "0 \<le> sum_list (take (nat (month b - 1)) ms)"
    by (rule sum_list_nonneg) (auto dest!: in_set_takeD intro: pos)
  with v show "0 \<le> dayInYear ms b" by (simp add: dayInYear_def)
  have i: "nat (month b - 1) < length ms" using v len by simp
  have "dayInYear ms b < sum_list (take (Suc (nat (month b - 1))) ms)"
    using v by (simp add: dayInYear_def sum_list_take_Suc [OF i])
  also have "\<dots> \<le> sum_list (take (length ms) ms)"
    using i by (intro sum_list_take_mono pos) auto
  finally show "dayInYear ms b < yearDays (year b)"
    using assms(2) by (simp add: yearDays_def)
qed

text \<open>
  C8. \<open>bsToJulianDays\<close> is strictly increasing: of two valid BS dates, the one whose
  (year, month, day) comes first in the lexicographic order has the smaller Julian day
  number (and both conversions succeed).
\<close>

theorem bsToJulianDays_strictly_increasing:
  assumes "validDate b1" "validDate b2"
    and "year b1 < year b2 \<or>
         (year b1 = year b2 \<and> (month b1 < month b2 \<or> (month b1 = month b2 \<and> day b1 < day b2)))"
  shows "\<exists>j1 j2. bsToJulianDays b1 = Inr j1 \<and> bsToJulianDays b2 = Inr j2 \<and> j1 < j2"
proof -
  from assms(1) obtain ms1 where ms1: "map_of monthDaysInBSYear (year b1) = Some ms1"
    by (auto simp: validDate_iff)
  from assms(2) obtain ms2 where ms2: "map_of monthDaysInBSYear (year b2) = Some ms2"
    by (auto simp: validDate_iff)
  note j1 = bsToJulianDays_valid [OF assms(1) ms1]
  note j2 = bsToJulianDays_valid [OF assms(2) ms2]
  have y1: "2000 \<le> year b1" using map_of_Some_range [OF ms1] by simp
  have "daysBetween 2000 (year b1) + dayInYear ms1 b1 < daysBetween 2000 (year b2) + dayInYear ms2 b2"
  proof (cases "year b1 < year b2")
    case True
    have "daysBetween 2000 (year b2) =
            daysBetween 2000 (year b1) + daysBetween (year b1) (year b2)"
      using y1 True by (intro daysBetween_split) auto
    also have "daysBetween (year b1) (year b2) = yearDays (year b1) + daysBetween (year b1 + 1) (year b2)"
      using True by (rule daysBetween_step)
    finally have "daysBetween 2000 (year b1) + yearDays (year b1) \<le> daysBetween 2000 (year b2)"
      using daysBetween_nonneg [of "year b1 + 1" "year b2"] by simp
    moreover have "dayInYear ms1 b1 < yearDays (year b1)"
      by (rule dayInYear_bounds(2) [OF assms(1) ms1])
    moreover have "0 \<le> dayInYear ms2 b2"
      by (rule dayInYear_bounds(1) [OF assms(2) ms2])
    ultimately show ?thesis by simp
  next
    case False
    with assms(3) have same: "year b1 = year b2"
      and ord: "month b1 < month b2 \<or> (month b1 = month b2 \<and> day b1 < day b2)" by auto
    from same ms1 ms2 have eq: "ms2 = ms1" by simp
    have len: "length ms1 = 12" and pos: "\<And>n. n \<in> set ms1 \<Longrightarrow> 0 \<le> n"
      using row_props [OF ms1] by force+
    from assms(1) ms1 have v1: "1 \<le> month b1" "month b1 \<le> 12" "day b1 \<le> ms1 ! nat (month b1 - 1)"
      by (auto simp: validDate_iff)
    from assms(2) ms2 eq have v2: "month b2 \<le> 12" "1 \<le> day b2"
      by (auto simp: validDate_iff)
    have "dayInYear ms1 b1 < dayInYear ms1 b2"
    proof (cases "month b1 < month b2")
      case True
      have i: "nat (month b1 - 1) < length ms1" using v1 len by simp
      have "dayInYear ms1 b1 < sum_list (take (Suc (nat (month b1 - 1))) ms1)"
        using v1 by (simp add: dayInYear_def sum_list_take_Suc [OF i])
      also have "\<dots> \<le> sum_list (take (nat (month b2 - 1)) ms1)"
        using True v1 by (intro sum_list_take_mono pos) auto
      also have "\<dots> \<le> dayInYear ms1 b2" using v2 by (simp add: dayInYear_def)
      finally show ?thesis .
    next
      case False
      with ord show ?thesis by (simp add: dayInYear_def)
    qed
    with same eq show ?thesis by simp
  qed
  then have "(of_int (daysBetween 2000 (year b1) + dayInYear ms1 b1) :: rat)
               < of_int (daysBetween 2000 (year b2) + dayInYear ms2 b2)"
    by (simp only: of_int_less_iff)
  then have "epochJulianDays + of_int (daysBetween 2000 (year b1)) + of_int (dayInYear ms1 b1)
             < epochJulianDays + of_int (daysBetween 2000 (year b2)) + of_int (dayInYear ms2 b2)"
    by simp
  with j1 j2 show ?thesis by simp
qed

theorem bsToJulianDays_strictly_increasing_witness:
  "validDate \<lparr>year = 2081, month = 12, day = 30\<rparr> \<and>
   validDate \<lparr>year = 2082, month = 1, day = 1\<rparr> \<and>
   (\<exists>j1 j2. bsToJulianDays \<lparr>year = 2081, month = 12, day = 30\<rparr> = Inr j1 \<and>
            bsToJulianDays \<lparr>year = 2082, month = 1, day = 1\<rparr> = Inr j2 \<and> j1 < j2)"
proof -
  have v1: "validDate \<lparr>year = 2081, month = 12, day = 30\<rparr>" by code_simp
  have v2: "validDate \<lparr>year = 2082, month = 1, day = 1\<rparr>" by code_simp
  show ?thesis
    using v1 v2 bsToJulianDays_strictly_increasing
      [of "\<lparr>year = 2081, month = 12, day = 30\<rparr>" "\<lparr>year = 2082, month = 1, day = 1\<rparr>", OF v1 v2]
    by simp
qed


section \<open>Validation\<close>

lemma table_key_bounds: "fst (hd monthDaysInBSYear) = 2000" "fst (last monthDaysInBSYear) = 2090"
  by (simp_all add: monthDaysInBSYear_def)

lemma toString_bounds: "toString 2000 = ''2000''" "toString 2090 = ''2090''"
  by code_simp+

lemma table_keys_set: "fst ` set monthDaysInBSYear = {2000..2090}"
proof -
  have "fst ` set monthDaysInBSYear = set (map fst monthDaysInBSYear)" by simp
  also have "\<dots> = {2000..2090}" by (simp only: monthDaysInBSYear_keys set_upto)
  finally show ?thesis .
qed

lemma toAD_valid:
  assumes "validDate b"
  shows "\<exists>t. toAD b = Inr t"
proof -
  from assms obtain ms where "map_of monthDaysInBSYear (year b) = Some ms"
    by (auto simp: validDate_iff)
  from bsToJulianDays_valid [OF assms this] assms show ?thesis
    by (simp add: toAD_def validateBSDate_def)
qed

lemma toAD_invalid:
  assumes "\<not> validDate b"
  shows "toAD b = Inl (BSDateOutOfRangeError
           (''Year '' @ toString (year b) @ '' is out of valid range (2000-2090)''))"
  using assms by (simp add: toAD_def validateBSDate_def table_key_bounds toString_bounds)

lemma validDate_spec:
  "validDate b \<longleftrightarrow>
     \<not> (year b \<notin> fst ` set monthDaysInBSYear \<or> month b < 1 \<or> 12 < month b \<or> day b < 1 \<or>
        the (map_of monthDaysInBSYear (year b)) ! nat (month b - 1) < day b)"
proof (cases "map_of monthDaysInBSYear (year b)")
  case None
  then have "year b \<notin> fst ` set monthDaysInBSYear"
    using map_of_eq_None_iff [of monthDaysInBSYear "year b"] by blast
  with None show ?thesis by (simp add: validDate_iff)
next
  case (Some ms)
  then have "year b \<in> fst ` set monthDaysInBSYear"
    using map_of_eq_None_iff [of monthDaysInBSYear "year b"] by simp
  with Some show ?thesis by (auto simp: validDate_iff)
qed

text \<open>
  C4. \<open>toAD\<close> raises \<open>BSDateOutOfRangeError\<close> exactly when the date is invalid: when the
  year is not a key of the table (the keys are the years 2000 to 2090), or the month is
  outside 1..12, or the day is outside 1..length of that month. The message of the error
  carries the bounds 2000-2090. On every other date \<open>toAD\<close> returns an AD date.
\<close>

theorem toAD_raises_iff_invalid:
  "fst ` set monthDaysInBSYear = {2000..2090} \<and>
   (year b \<notin> fst ` set monthDaysInBSYear \<or> month b < 1 \<or> 12 < month b \<or> day b < 1 \<or>
      the (map_of monthDaysInBSYear (year b)) ! nat (month b - 1) < day b
    \<longrightarrow> toAD b = Inl (BSDateOutOfRangeError
                (''Year '' @ toString (year b) @ '' is out of valid range (2000-2090)''))) \<and>
   (\<not> (year b \<notin> fst ` set monthDaysInBSYear \<or> month b < 1 \<or> 12 < month b \<or> day b < 1 \<or>
      the (map_of monthDaysInBSYear (year b)) ! nat (month b - 1) < day b)
    \<longrightarrow> (\<exists>t. toAD b = Inr t))"
  using toAD_valid [of b] toAD_invalid [of b] validDate_spec [of b] table_keys_set by blast

theorem toAD_raises_iff_invalid_witness:
  "toAD \<lparr>year = 1999, month = 5, day = 25\<rparr> =
     Inl (BSDateOutOfRangeError ''Year 1999 is out of valid range (2000-2090)'') \<and>
   toAD \<lparr>year = 2000, month = 13, day = 25\<rparr> =
     Inl (BSDateOutOfRangeError ''Year 2000 is out of valid range (2000-2090)'') \<and>
   toAD \<lparr>year = 2000, month = 1, day = 33\<rparr> =
     Inl (BSDateOutOfRangeError ''Year 2000 is out of valid range (2000-2090)'') \<and>
   (\<exists>t. toAD \<lparr>year = 2090, month = 12, day = 30\<rparr> = Inr t)"
proof -
  have k: "(1999::int) \<notin> {2000..2090}" "(2000::int) \<in> {2000..2090}" "(2090::int) \<in> {2000..2090}"
    by simp_all
  have r: "the (map_of monthDaysInBSYear 2000) ! 0 = 30"
          "the (map_of monthDaysInBSYear 2090) ! 11 = 30"
    by code_simp+
  have s: "toString 1999 = ''1999''" "toString 2000 = ''2000''" by code_simp+
  show ?thesis
    using toAD_raises_iff_invalid [of "\<lparr>year = 1999, month = 5, day = 25\<rparr>"]
          toAD_raises_iff_invalid [of "\<lparr>year = 2000, month = 13, day = 25\<rparr>"]
          toAD_raises_iff_invalid [of "\<lparr>year = 2000, month = 1, day = 33\<rparr>"]
          toAD_raises_iff_invalid [of "\<lparr>year = 2090, month = 12, day = 30\<rparr>"]
    by (simp add: table_keys_set k r s)
qed

text \<open>
  C9. The constructor fails with the generic error of construction (not with
  \<open>BSDateOutOfRangeError\<close>) when the year, the month or the day is missing or zero, and
  succeeds on any three non-zero components, storing them unchecked: the date built need
  not be a valid one.
\<close>

theorem new_BSDate_checks_presence_only:
  "(y = None \<or> y = Some 0 \<or> m = None \<or> m = Some 0 \<or> d = None \<or> d = Some 0
      \<longrightarrow> new_BSDate y m d = Inl (Error ''Year, month, and day are required'')) \<and>
   (y' \<noteq> 0 \<and> m' \<noteq> 0 \<and> d' \<noteq> 0
      \<longrightarrow> new_BSDate (Some y') (Some m') (Some d') = Inr \<lparr>year = y', month = m', day = d'\<rparr>)"
  by (auto simp: new_BSDate_def falsy_def)

theorem new_BSDate_checks_presence_only_witness:
  "new_BSDate (Some 2000) (Some 1) None = Inl (Error ''Year, month, and day are required'') \<and>
   new_BSDate (Some 2000) (Some 0) (Some 1) = Inl (Error ''Year, month, and day are required'') \<and>
   new_BSDate (Some 1999) (Some 13) (Some 99) = Inr \<lparr>year = 1999, month = 13, day = 99\<rparr> \<and>
   \<not> validDate \<lparr>year = 1999, month = 13, day = 99\<rparr>"
proof -
  have "\<not> validDate \<lparr>year = 1999, month = 13, day = 99\<rparr>" by code_simp
  then show ?thesis
    using new_BSDate_checks_presence_only [of "Some 2000" "Some 1" None 1 1 1]
          new_BSDate_checks_presence_only [of "Some 2000" "Some 0" "Some 1" 1 1 1]
          new_BSDate_checks_presence_only [of None None None 1999 13 99]
    by simp
qed


section \<open>The scans of \<open>julianDaysToBS\<close>\<close>

lemma table_total_days:
  "sum_list (map (sum_list \<circ> snd) monthDaysInBSYear) = 33238" "daysBetween 2000 2091 = 33238"
  by code_simp+

lemma julianDaysToBS_years_ok:
  "2000 \<le> y \<Longrightarrow> y \<le> 2090 \<Longrightarrow> r \<le> of_int (daysBetween y 2091) \<Longrightarrow>
   \<exists>y' r'. julianDaysToBS_years y r = Inr (y', r') \<and> y \<le> y' \<and> y' \<le> 2090 \<and> (0 \<le> r \<longrightarrow> 0 \<le> r')"
proof (induction y r rule: julianDaysToBS_years.induct)
  case (1 y r)
  from "1.prems" obtain ms where ms: "map_of monthDaysInBSYear y = Some ms"
    using map_of_in_range [of y] by auto
  have step: "daysBetween y 2091 = sum_list ms + daysBetween (y + 1) 2091"
    using daysBetween_step [of y 2091] "1.prems" ms by (simp add: yearDays_def)
  have nonneg: "0 \<le> sum_list ms" using yearDays_nonneg [of y] ms by (simp add: yearDays_def)
  show ?case
  proof (cases "r > of_int (sum_list ms)")
    case False
    with ms "1.prems" show ?thesis by simp
  next
    case True
    have "y \<noteq> 2090"
    proof
      assume "y = 2090"
      then have "daysBetween y 2091 = sum_list ms" using step by (simp add: daysBetween_empty)
      with "1.prems"(3) True show False by simp
    qed
    with "1.prems" have y1: "2000 \<le> y + 1" "y + 1 \<le> 2090" by auto
    have r1: "r - of_int (sum_list ms) \<le> of_int (daysBetween (y + 1) 2091)"
      using "1.prems"(3) step by simp
    from "1.IH" [OF ms True y1 r1] obtain y' r'
      where "julianDaysToBS_years (y + 1) (r - of_int (sum_list ms)) = Inr (y', r')"
        and "y + 1 \<le> y'" "y' \<le> 2090" "0 \<le> r - of_int (sum_list ms) \<longrightarrow> 0 \<le> r'"
      by blast
    moreover have "0 \<le> r - of_int (sum_list ms)" using True by simp
    ultimately show ?thesis using ms True by simp
  qed
qed

lemma julianDaysToBS_years_fail:
  "2000 \<le> y \<Longrightarrow> y \<le> 2091 \<Longrightarrow> of_int (daysBetween y 2091) < r \<Longrightarrow>
   julianDaysToBS_years y r = Inl TypeError"
proof (induction y r rule: julianDaysToBS_years.induct)
  case (1 y r)
  show ?case
  proof (cases "map_of monthDaysInBSYear y")
    case None
    then show ?thesis by simp
  next
    case (Some ms)
    then have y: "y \<le> 2090" using map_of_Some_range by blast
    have step: "daysBetween y 2091 = sum_list ms + daysBetween (y + 1) 2091"
      using daysBetween_step [of y 2091] y Some by (simp add: yearDays_def)
    have "of_int (sum_list ms) \<le> (of_int (daysBetween y 2091) :: rat)"
      using step daysBetween_nonneg [of "y + 1" 2091] by simp
    with "1.prems"(3) have gt: "r > of_int (sum_list ms)" by simp
    have "of_int (daysBetween (y + 1) 2091) < r - of_int (sum_list ms)"
      using "1.prems"(3) step by simp
    with "1.IH" [OF Some gt] "1.prems"(1) y
    have "julianDaysToBS_years (y + 1) (r - of_int (sum_list ms)) = Inl TypeError" by simp
    with Some gt show ?thesis by simp
  qed
qed

lemma julianDaysToBS_months_bounds:
  "julianDaysToBS_months ms m r = (m', r') \<Longrightarrow> m \<le> m' \<and> (0 \<le> r \<longrightarrow> 0 \<le> r')"
proof (induction ms m r rule: julianDaysToBS_months.induct)
  case (1 ms m r)
  show ?case
  proof (cases "js_index ms (m - 1)")
    case None
    with "1.prems" show ?thesis by simp
  next
    case (Some n)
    show ?thesis
    proof (cases "r > of_int n")
      case True
      with Some "1.prems" have "julianDaysToBS_months ms (m + 1) (r - of_int n) = (m', r')" by simp
      from "1.IH" [OF Some True this] True show ?thesis by auto
    next
      case False
      with Some "1.prems" show ?thesis by simp
    qed
  qed
qed

lemma julianDaysToBS_ok:
  assumes "julianDays - epochJulianDays \<le> 33238"
  shows "\<exists>y m d. julianDaysToBS julianDays = Inr (y, m, d) \<and> 2000 \<le> y \<and> y \<le> 2090 \<and> 1 \<le> m \<and>
           (0 \<le> julianDays - epochJulianDays \<longrightarrow> 1 \<le> d)"
proof -
  let ?r = "julianDays - epochJulianDays"
  have "?r \<le> of_int (daysBetween 2000 2091)" using assms by (simp add: table_total_days)
  then obtain y r' where ys: "julianDaysToBS_years 2000 ?r = Inr (y, r')"
    and y: "2000 \<le> y" "y \<le> 2090" and r': "0 \<le> ?r \<longrightarrow> 0 \<le> r'"
    using julianDaysToBS_years_ok [of 2000 ?r] by auto
  from y obtain ms where ms: "map_of monthDaysInBSYear y = Some ms"
    using map_of_in_range by blast
  obtain m r'' where mo: "julianDaysToBS_months ms 1 r' = (m, r'')" by force
  from julianDaysToBS_months_bounds [OF mo] have m: "1 \<le> m" and r'': "0 \<le> r' \<longrightarrow> 0 \<le> r''"
    by auto
  have "0 \<le> ?r \<longrightarrow> 1 \<le> \<lceil>r'' + 1\<rceil>" using r' r'' by (auto simp: le_ceiling_iff)
  moreover have "julianDaysToBS julianDays = Inr (y, m, \<lceil>r'' + 1\<rceil>)"
    using ys ms mo by (simp add: julianDaysToBS_def epochBS_def)
  ultimately show ?thesis using y m by blast
qed

lemma julianDaysToBS_fail:
  assumes "33238 < julianDays - epochJulianDays"
  shows "julianDaysToBS julianDays = Inl TypeError"
proof -
  have "of_int (daysBetween 2000 2091) < julianDays - epochJulianDays"
    using assms by (simp add: table_total_days)
  then have "julianDaysToBS_years 2000 (julianDays - epochJulianDays) = Inl TypeError"
    by (intro julianDaysToBS_years_fail) auto
  then show ?thesis by (simp add: julianDaysToBS_def epochBS_def)
qed

text \<open>
  C5 (as amended). The months of the table add up to 33238 days. A Julian day number more
  than 33238 days after the epoch drives the year scan past the last key, 2090; the
  conversion then ends with the \<open>TypeError\<close> that the runtime raises on the failed
  table lookup. This is the only way \<open>julianDaysToBS\<close> fails, and on every other input it
  returns: it never loops forever and never raises \<open>BSDateOutOfRangeError\<close>.
\<close>

theorem julianDaysToBS_past_table_TypeError:
  "sum_list (map (sum_list \<circ> snd) monthDaysInBSYear) = 33238 \<and>
   (julianDaysToBS julianDays = Inl TypeError \<longleftrightarrow> 33238 < julianDays - epochJulianDays) \<and>
   (\<forall>e. julianDaysToBS julianDays = Inl e \<longleftrightarrow> e = TypeError \<and> 33238 < julianDays - epochJulianDays)"
proof -
  have "julianDaysToBS julianDays = Inl TypeError" if "33238 < julianDays - epochJulianDays"
    using that by (rule julianDaysToBS_fail)
  moreover have "\<exists>y m d. julianDaysToBS julianDays = Inr (y, m, d)"
    if "\<not> 33238 < julianDays - epochJulianDays"
    using that julianDaysToBS_ok [of julianDays] by auto
  ultimately show ?thesis using table_total_days(1) by (cases "33238 < julianDays - epochJulianDays") auto
qed

text \<open>
  C5 as stated fails: 33239 days after the epoch (the AD date 2034-04-15) the error is a
  \<open>TypeError\<close>, not \<open>BSDateOutOfRangeError\<close>.
\<close>

theorem julianDaysToBS_past_table_counterexample:
  "julianDaysToBS (epochJulianDays + 33239) = Inl TypeError \<and>
   fromAD (Date_ISO 2034 4 15) = Inl TypeError"
  by code_simp

section \<open>The round trip through the Julian day number\<close>

text \<open>Where the scans of \<open>julianDaysToBS\<close> end when the offset from the epoch is the
  start of month \<open>m\<close> of year \<open>y\<close> plus \<open>k\<close> days, for \<open>k\<close> from 1 to the length of
  that month: in that month, on day \<open>k + 1\<close>.\<close>

lemma julianDaysToBS_years_exact:
  "r = of_int (daysBetween y0 y) + k \<Longrightarrow> 2000 \<le> y0 \<Longrightarrow> y0 \<le> y \<Longrightarrow>
   map_of monthDaysInBSYear y = Some ms \<Longrightarrow> 0 < k \<Longrightarrow> k \<le> of_int (sum_list ms) \<Longrightarrow>
   julianDaysToBS_years y0 r = Inr (y, k)"
proof (induction y0 r rule: julianDaysToBS_years.induct)
  case (1 y0 r)
  show ?case
  proof (cases "y0 = y")
    case True
    with "1.prems" show ?thesis by (simp add: daysBetween_empty)
  next
    case False
    with "1.prems" have lt: "y0 < y" by simp
    have "y \<le> 2090" using map_of_Some_range [OF "1.prems"(4)] by simp
    with lt "1.prems"(2) obtain ms0 where ms0: "map_of monthDaysInBSYear y0 = Some ms0"
      using map_of_in_range [of y0] by auto
    have step: "daysBetween y0 y = sum_list ms0 + daysBetween (y0 + 1) y"
      using daysBetween_step [OF lt] ms0 by (simp add: yearDays_def)
    have "(0::rat) \<le> of_int (daysBetween (y0 + 1) y)"
      using daysBetween_nonneg [of "y0 + 1" y] by simp
    with "1.prems"(1,5) step have gt: "r > of_int (sum_list ms0)" by simp
    have r1: "r - of_int (sum_list ms0) = of_int (daysBetween (y0 + 1) y) + k"
      using "1.prems"(1) step by simp
    have "julianDaysToBS_years (y0 + 1) (r - of_int (sum_list ms0)) = Inr (y, k)"
      using "1.IH" [OF ms0 gt r1 _ _ "1.prems"(4,5,6)] "1.prems"(2) lt by simp
    with ms0 gt show ?thesis by simp
  qed
qed

lemma julianDaysToBS_months_exact:
  "r = of_int (sum_list (take (nat (m - 1)) ms) - sum_list (take (nat (m0 - 1)) ms)) + k \<Longrightarrow>
   1 \<le> m0 \<Longrightarrow> m0 \<le> m \<Longrightarrow> m \<le> int (length ms) \<Longrightarrow> (\<And>n. n \<in> set ms \<Longrightarrow> 0 \<le> n) \<Longrightarrow>
   0 < k \<Longrightarrow> k \<le> of_int (ms ! nat (m - 1)) \<Longrightarrow>
   julianDaysToBS_months ms m0 r = (m, k)"
proof (induction ms m0 r rule: julianDaysToBS_months.induct)
  case (1 ms m0 r)
  have idx0: "js_index ms (m0 - 1) = Some (ms ! nat (m0 - 1))"
    using "1.prems"(2,3,4) by (simp add: js_index_def)
  show ?case
  proof (cases "m0 = m")
    case True
    with "1.prems" idx0 show ?thesis by simp
  next
    case False
    with "1.prems" have lt: "m0 < m" by simp
    have i: "nat (m0 - 1) < length ms" using "1.prems"(2,4) lt by simp
    have suc: "Suc (nat (m0 - 1)) = nat (m0 + 1 - 1)" using "1.prems"(2) by simp
    have s0: "sum_list (take (nat (m0 + 1 - 1)) ms) =
              sum_list (take (nat (m0 - 1)) ms) + ms ! nat (m0 - 1)"
      using sum_list_take_Suc [OF i] suc by simp
    have mono: "sum_list (take (nat (m0 + 1 - 1)) ms) \<le> sum_list (take (nat (m - 1)) ms)"
      using lt "1.prems"(2) by (intro sum_list_take_mono "1.prems"(5)) auto
    have "ms ! nat (m0 - 1) \<le> sum_list (take (nat (m - 1)) ms) - sum_list (take (nat (m0 - 1)) ms)"
      using s0 mono by simp
    then have "(of_int (ms ! nat (m0 - 1)) :: rat)
                 \<le> of_int (sum_list (take (nat (m - 1)) ms) - sum_list (take (nat (m0 - 1)) ms))"
      by (simp only: of_int_le_iff)
    with "1.prems"(1,6) have gt: "r > of_int (ms ! nat (m0 - 1))" by simp
    have r1: "r - of_int (ms ! nat (m0 - 1)) =
              of_int (sum_list (take (nat (m - 1)) ms) - sum_list (take (nat (m0 + 1 - 1)) ms)) + k"
      using "1.prems"(1) s0 by simp
    have "julianDaysToBS_months ms (m0 + 1) (r - of_int (ms ! nat (m0 - 1))) = (m, k)"
      using "1.IH" [OF idx0 gt r1 _ _ "1.prems"(4) "1.prems"(5) "1.prems"(6,7)] "1.prems"(2) lt
      by simp
    with idx0 gt show ?thesis by simp
  qed
qed

lemma julianDaysToBS_at:
  assumes ms: "map_of monthDaysInBSYear y = Some ms"
    and m: "1 \<le> m" "m \<le> 12"
    and k: "0 < k" "k \<le> ms ! nat (m - 1)"
  shows "julianDaysToBS (epochJulianDays + of_int (daysBetween 2000 y)
           + of_int (sum_list (take (nat (m - 1)) ms) + k)) = Inr (y, m, k + 1)"
proof -
  have len: "length ms = 12" and pos: "\<And>n. n \<in> set ms \<Longrightarrow> 0 \<le> n"
    using row_props [OF ms] by force+
  have y: "2000 \<le> y" using map_of_Some_range [OF ms] by simp
  let ?d = "sum_list (take (nat (m - 1)) ms) + k"
  have i: "nat (m - 1) < length ms" using m len by simp
  have "0 \<le> sum_list (take (nat (m - 1)) ms)"
    by (rule sum_list_nonneg) (auto dest!: in_set_takeD intro: pos)
  with k have d0: "0 < ?d" by simp
  have "?d \<le> sum_list (take (Suc (nat (m - 1))) ms)"
    using k by (simp add: sum_list_take_Suc [OF i])
  also have "\<dots> \<le> sum_list (take (length ms) ms)"
    using i by (intro sum_list_take_mono pos) auto
  finally have d1: "?d \<le> sum_list ms" by simp
  have ys: "julianDaysToBS_years 2000 (of_int (daysBetween 2000 y) + of_int ?d) = Inr (y, of_int ?d)"
    using y d0 d1 by (intro julianDaysToBS_years_exact [OF _ _ _ ms]) auto
  have mo: "julianDaysToBS_months ms 1 (of_int ?d) = (m, of_int k)"
    using m len k pos by (intro julianDaysToBS_months_exact) auto
  have "\<lceil>(of_int k :: rat) + 1\<rceil> = k + 1" by simp
  with ys mo ms show ?thesis
    by (simp add: julianDaysToBS_def epochBS_def add.assoc)
qed

text \<open>Hence the way back from a valid date is right from the second day of a month on,
  and on the first day of a month it answers the day after the last of the month before
  (of month 12 of the year before, on the first day of a year). The epoch itself, at
  offset 0, is the only first day that comes back.\<close>

lemma roundtrip_BS_from_second_day:
  assumes "validDate b" "2 \<le> day b"
  shows "\<exists>j. bsToJulianDays b = Inr j \<and> julianDaysToBS j = Inr (year b, month b, day b)"
proof -
  from assms(1) obtain ms where ms: "map_of monthDaysInBSYear (year b) = Some ms"
    and v: "1 \<le> month b" "month b \<le> 12" "day b \<le> ms ! nat (month b - 1)"
    by (auto simp: validDate_iff)
  have "julianDaysToBS (epochJulianDays + of_int (daysBetween 2000 (year b))
           + of_int (sum_list (take (nat (month b - 1)) ms) + (day b - 1)))
        = Inr (year b, month b, day b - 1 + 1)"
    using v assms(2) by (intro julianDaysToBS_at [OF ms]) auto
  with bsToJulianDays_valid [OF assms(1) ms] show ?thesis by (simp add: dayInYear_def)
qed

lemma roundtrip_BS_first_of_later_month:
  assumes "validDate b" "day b = 1" "2 \<le> month b"
    and ms: "map_of monthDaysInBSYear (year b) = Some ms"
  shows "\<exists>j. bsToJulianDays b = Inr j \<and>
             julianDaysToBS j = Inr (year b, month b - 1, ms ! nat (month b - 2) + 1)"
proof -
  from assms(1) ms have v: "month b \<le> 12" by (auto simp: validDate_iff)
  have len: "length ms = 12" using row_props(1) [OF ms] .
  have i: "nat (month b - 2) < length ms" using v assms(3) len by simp
  have "0 < ms ! nat (month b - 2)" using row_props(2) [OF ms, of "ms ! nat (month b - 2)"] i by simp
  then have "julianDaysToBS (epochJulianDays + of_int (daysBetween 2000 (year b))
           + of_int (sum_list (take (nat (month b - 1 - 1)) ms) + ms ! nat (month b - 2)))
        = Inr (year b, month b - 1, ms ! nat (month b - 2) + 1)"
    using v assms(3) by (intro julianDaysToBS_at [OF ms]) auto
  moreover have "Suc (nat (month b - 2)) = nat (month b - 1)" using assms(3) by simp
  then have "sum_list (take (nat (month b - 1)) ms) =
             sum_list (take (nat (month b - 2)) ms) + ms ! nat (month b - 2)"
    using sum_list_take_Suc [OF i] by simp
  ultimately show ?thesis
    using bsToJulianDays_valid [OF assms(1) ms] assms(2) by (simp add: dayInYear_def)
qed

lemma roundtrip_BS_first_of_later_year:
  assumes "validDate b" "day b = 1" "month b = 1" "2000 < year b"
    and ms': "map_of monthDaysInBSYear (year b - 1) = Some ms'"
  shows "\<exists>j. bsToJulianDays b = Inr j \<and> julianDaysToBS j = Inr (year b - 1, 12, ms' ! 11 + 1)"
proof -
  from assms(1) obtain ms where ms: "map_of monthDaysInBSYear (year b) = Some ms"
    by (auto simp: validDate_iff)
  have len: "length ms' = 12" using row_props(1) [OF ms'] .
  have "0 < ms' ! 11" using row_props(2) [OF ms', of "ms' ! 11"] len by simp
  then have "julianDaysToBS (epochJulianDays + of_int (daysBetween 2000 (year b - 1))
           + of_int (sum_list (take (nat (12 - 1)) ms') + ms' ! nat (12 - 1)))
        = Inr (year b - 1, 12, ms' ! nat (12 - 1) + 1)"
    by (intro julianDaysToBS_at [OF ms']) auto
  moreover have "sum_list (take 11 ms') + ms' ! 11 = sum_list ms'"
    using sum_list_take_Suc [of 11 ms'] len by simp
  moreover have "daysBetween 2000 (year b) = daysBetween 2000 (year b - 1) + sum_list ms'"
    using daysBetween_split [of 2000 "year b - 1" "year b"] daysBetween_step [of "year b - 1" "year b"]
      assms(4) ms' by (simp add: yearDays_def daysBetween_empty)
  ultimately show ?thesis
    using bsToJulianDays_valid [OF assms(1) ms] assms(2,3) by (simp add: dayInYear_def add.assoc)
qed

lemma roundtrip_BS_iff:
  assumes "validDate b"
  shows "(\<exists>j. bsToJulianDays b = Inr j \<and> julianDaysToBS j = Inr (year b, month b, day b)) \<longleftrightarrow>
         2 \<le> day b \<or> (year b = 2000 \<and> month b = 1)"
proof (cases "2 \<le> day b")
  case True
  with roundtrip_BS_from_second_day [OF assms] show ?thesis by simp
next
  case False
  from assms obtain ms where ms: "map_of monthDaysInBSYear (year b) = Some ms"
    and v: "1 \<le> month b" "1 \<le> day b"
    by (auto simp: validDate_iff)
  from False v have d: "day b = 1" by simp
  have y: "2000 \<le> year b" "year b \<le> 2090" using map_of_Some_range [OF ms] by auto
  consider "2 \<le> month b" | "month b = 1" "2000 < year b" | "month b = 1" "year b = 2000"
    using v y by linarith
  then show ?thesis
  proof cases
    case 1
    from roundtrip_BS_first_of_later_month [OF assms d 1 ms] 1 d show ?thesis by auto
  next
    case 2
    then obtain ms' where ms': "map_of monthDaysInBSYear (year b - 1) = Some ms'"
      using map_of_in_range [of "year b - 1"] y by auto
    from roundtrip_BS_first_of_later_year [OF assms d 2 ms'] 2 d show ?thesis by auto
  next
    case 3
    have "bsToJulianDays b = Inr epochJulianDays"
      using bsToJulianDays_valid [OF assms ms] 3 d by (simp add: dayInYear_def daysBetween_empty)
    moreover have "julianDaysToBS epochJulianDays = Inr (2000, 1, 1)" by code_simp
    ultimately show ?thesis using 3 d by simp
  qed
qed

text \<open>
  C1. The round trip from a valid BS date to its Julian day number and back should give
  the date again. It does not on the first day of a month: BS 2000-02-01 is valid, its
  Julian day number is 2430858.5, thirty days after the epoch, and the way back stays in
  month 1, whose length is 30, and answers day 31.
\<close>

theorem roundtrip_BS_breaks_on_first_of_month:
  "validDate \<lparr>year = 2000, month = 2, day = 1\<rparr> \<and>
   bsToJulianDays \<lparr>year = 2000, month = 2, day = 1\<rparr> = Inr (4861717 / 2) \<and>
   julianDaysToBS (4861717 / 2) = Inr (2000, 1, 31)"
  by code_simp

text \<open>
  C2. The round trip from an AD date in the supported range to BS and back should give the
  AD date again without an error. The AD date 1943-05-14 lies in the range; \<open>toBS\<close>
  answers BS 2000-01-31, which \<open>toAD\<close> rejects with \<open>BSDateOutOfRangeError\<close>.
\<close>

theorem roundtrip_AD_breaks_on_first_of_month:
  "epochADStart \<le> Date_ISO 1943 5 14 \<and> Date_ISO 1943 5 14 \<le> epochADEnd \<and>
   toBS (Date_ISO 1943 5 14) = Inr \<lparr>year = 2000, month = 1, day = 31\<rparr> \<and>
   toAD \<lparr>year = 2000, month = 1, day = 31\<rparr> =
     Inl (BSDateOutOfRangeError ''Year 2000 is out of valid range (2000-2090)'')"
  by code_simp

text \<open>
  C3. When the remaining offset equals the length of the current month or year the scans
  do not advance, and the day should then be the last day of that period, within the
  table's length. The scans indeed stay, but the day computed is one more than the length:
  thirty days after the epoch the month scan stays in month 1 of 2000 (30 days) and the day
  is 31; 365 days after the epoch the year scan stays in 2000 (365 days), the month scan
  ends in month 12 (31 days) and the day is 32.
\<close>

theorem scan_boundary_day_exceeds_month_length:
  "map_of monthDaysInBSYear 2000 = Some [30, 32, 31, 32, 31, 30, 30, 30, 29, 30, 29, 31] \<and>
   julianDaysToBS_months [30, 32, 31, 32, 31, 30, 30, 30, 29, 30, 29, 31] 1 30 = (1, 30) \<and>
   julianDaysToBS (epochJulianDays + 30) = Inr (2000, 1, 31) \<and>
   julianDaysToBS_years 2000 365 = Inr (2000, 365) \<and>
   julianDaysToBS (epochJulianDays + 365) = Inr (2000, 12, 32)"
  by code_simp

section \<open>The range guard of \<open>toBS\<close>\<close>

lemma AD_bounds: "epochADStart = - 843177600000" "epochADEnd = 2028499200000"
  by code_simp+

lemma julian_in_range:
  assumes "epochADStart \<le> t" "t \<le> epochADEnd"
  shows "0 \<le> julian t - epochJulianDays" "julian t - epochJulianDays \<le> 33238"
proof -
  have eq: "julian t - epochJulianDays = of_int t / 86400000 + 9759"
    by (simp add: julian_def epochJulianDays_def msPerDay_def)
  from assms(1) have "(of_int (- 843177600000) :: rat) \<le> of_int t"
    unfolding AD_bounds by (simp only: of_int_le_iff)
  then have "(- 843177600000 :: rat) / 86400000 \<le> of_int t / 86400000"
    by (intro divide_right_mono) auto
  then show "0 \<le> julian t - epochJulianDays" unfolding eq by simp
  from assms(2) have "(of_int t :: rat) \<le> of_int 2028499200000"
    unfolding AD_bounds by (simp only: of_int_le_iff)
  then have "(of_int t :: rat) / 86400000 \<le> 2028499200000 / 86400000"
    by (intro divide_right_mono) auto
  then show "julian t - epochJulianDays \<le> 33238" unfolding eq by simp
qed

lemma toBS_in_range:
  assumes "epochADStart \<le> t" "t \<le> epochADEnd"
  shows "\<exists>b. toBS t = Inr b"
proof -
  from julian_in_range [OF assms] julianDaysToBS_ok [of "julian t"]
  obtain y m d where "julianDaysToBS (julian t) = Inr (y, m, d)" "2000 \<le> y" "1 \<le> m" "1 \<le> d"
    by auto
  then show ?thesis using assms by (simp add: toBS_def fromAD_def new_BSDate_def falsy_def)
qed

text \<open>
  C6. \<open>toBS\<close> raises \<open>DateOutOfRangeError\<close> for every AD date before 1943-04-14 or after
  2034-04-13 and succeeds for every AD date from the first to the second; in particular
  1942-06-25 and 2035-06-25 fail and 1999-06-25 converts to BS 2056-03-11. Dates are
  instants, the named days being their midnight UTC.
\<close>

theorem toBS_range_guard:
  "(t < Date_ISO 1943 4 14 \<or> Date_ISO 2034 4 13 < t
      \<longrightarrow> toBS t = Inl (DateOutOfRangeError ''Date is out of range'')) \<and>
   (Date_ISO 1943 4 14 \<le> t \<and> t \<le> Date_ISO 2034 4 13 \<longrightarrow> (\<exists>b. toBS t = Inr b)) \<and>
   toBS (Date_ISO 1942 6 25) = Inl (DateOutOfRangeError ''Date is out of range'') \<and>
   toBS (Date_ISO 2035 6 25) = Inl (DateOutOfRangeError ''Date is out of range'') \<and>
   toBS (Date_ISO 1999 6 25) = Inr \<lparr>year = 2056, month = 3, day = 11\<rparr>"
proof -
  have "toBS t = Inl (DateOutOfRangeError ''Date is out of range'')"
    if "t < Date_ISO 1943 4 14 \<or> Date_ISO 2034 4 13 < t"
    using that by (auto simp: toBS_def epochADStart_def epochADEnd_def)
  moreover have "\<exists>b. toBS t = Inr b" if "Date_ISO 1943 4 14 \<le> t \<and> t \<le> Date_ISO 2034 4 13"
    using that toBS_in_range [of t] by (simp add: epochADStart_def epochADEnd_def)
  moreover have "toBS (Date_ISO 1942 6 25) = Inl (DateOutOfRangeError ''Date is out of range'')"
    by code_simp
  moreover have "toBS (Date_ISO 2035 6 25) = Inl (DateOutOfRangeError ''Date is out of range'')"
    by code_simp
  moreover have "toBS (Date_ISO 1999 6 25) = Inr \<lparr>year = 2056, month = 3, day = 11\<rparr>"
    by code_simp
  ultimately show ?thesis by blast
qed

theorem toBS_range_guard_witness:
  "Date_ISO 1943 4 13 < Date_ISO 1943 4 14 \<and>
   toBS (Date_ISO 1943 4 13) = Inl (DateOutOfRangeError ''Date is out of range'') \<and>
   Date_ISO 2034 4 13 < Date_ISO 2034 4 14 \<and>
   toBS (Date_ISO 2034 4 14) = Inl (DateOutOfRangeError ''Date is out of range'') \<and>
   Date_ISO 1943 4 14 \<le> Date_ISO 2034 4 13 \<and>
   (\<exists>b. toBS (Date_ISO 1943 4 14) = Inr b) \<and> (\<exists>b. toBS (Date_ISO 2034 4 13) = Inr b)"
proof -
  have o: "Date_ISO 1943 4 13 < Date_ISO 1943 4 14" "Date_ISO 2034 4 13 < Date_ISO 2034 4 14"
    "Date_ISO 1943 4 14 \<le> Date_ISO 2034 4 13"
    by code_simp+
  show ?thesis
    using o toBS_range_guard [of "Date_ISO 1943 4 13"] toBS_range_guard [of "Date_ISO 2034 4 14"]
      toBS_range_guard [of "Date_ISO 1943 4 14"] toBS_range_guard [of "Date_ISO 2034 4 13"]
    by simp
qed


text \<open>
  C7. \<open>toAD\<close> meets the two anchor points: BS 2000-01-01 is the AD date 1943-04-14 (the
  epoch, Julian day 2430828.5) and BS 2082-05-25 is the AD date 2025-09-10, both at
  midnight UTC.
\<close>

theorem toAD_anchor_points:
  "toAD \<lparr>year = 2000, month = 1, day = 1\<rparr> = Inr (Date_ISO 1943 4 14) \<and>
   toAD \<lparr>year = 2082, month = 5, day = 25\<rparr> = Inr (Date_ISO 2025 9 10) \<and>
   bsToJulianDays \<lparr>year = 2000, month = 1, day = 1\<rparr> = Inr epochJulianDays \<and>
   julian (Date_ISO 1943 4 14) = epochJulianDays"
  by code_simp

section \<open>Presentation and validation\<close>

lemma months_length: "length months = 12"
  by (simp add: months_def)

lemma weekdays_length:
  "length weekdays = 7" "length weekdaysLocal = 7"
  by (simp_all add: weekdays_def weekdaysLocal_def)

lemma getDay_less: "getDay t < 7"
  by (simp add: getDay_def msPerDay_def nat_less_iff)

lemma monthName_cases:
  "monthName b romanized =
     (if 1 \<le> month b \<and> month b \<le> 12
      then Some ((if romanized then map snd months else map fst months) ! nat (month b - 1))
      else None)"
  by (auto simp: monthName_def js_index_def months_length)

lemma dayName_invalid:
  assumes "\<not> validDate b" "\<not> (romanized \<and> localized)"
  shows "dayName b romanized localized =
           Inl (BSDateOutOfRangeError
             (''Year '' @ toString (year b) @ '' is out of valid range (2000-2090)''))"
  using assms toAD_invalid [of b] by (auto simp: dayName_def)

lemma dayName_valid:
  assumes "validDate b" "\<not> (romanized \<and> localized)"
  shows "\<exists>s. dayName b romanized localized = Inr (Some s)"
proof -
  from toAD_valid [OF assms(1)] obtain t where "toAD b = Inr t" ..
  moreover have "0 \<le> int (getDay t)" "int (getDay t) < 7" using getDay_less [of t] by auto
  ultimately show ?thesis
    using assms(2) by (auto simp: dayName_def js_index_def weekdays_length)
qed

text \<open>
  C10 (as amended). Of the presentation operations only \<open>dayName\<close> validates the date. On
  an invalid date \<open>dayName\<close>, asked for at most one of the romanized and localized
  forms, raises \<open>BSDateOutOfRangeError\<close>, and on a valid date it returns a name; asked for
  both forms it raises the generic error before it looks at the date. \<open>monthName\<close>
  never raises: it returns a name when the month is in 1..12 and \<open>undefined\<close>
  otherwise. \<open>toNepali\<close> never raises and always returns a string, with the word
  \<open>undefined\<close> in place of the month name when the month is outside 1..12.
\<close>

theorem only_dayName_validates:
  "(\<not> validDate b \<and> \<not> (romanized \<and> localized)
      \<longrightarrow> dayName b romanized localized =
            Inl (BSDateOutOfRangeError
              (''Year '' @ toString (year b) @ '' is out of valid range (2000-2090)''))) \<and>
   (validDate b \<and> \<not> (romanized \<and> localized)
      \<longrightarrow> (\<exists>s. dayName b romanized localized = Inr (Some s))) \<and>
   (romanized \<and> localized
      \<longrightarrow> dayName b romanized localized =
            Inl (Error ''You must provide exactly one of :romanized or :localized'')) \<and>
   (1 \<le> month b \<and> month b \<le> 12 \<longrightarrow> (\<exists>s. monthName b romanized = Some s)) \<and>
   (month b < 1 \<or> 12 < month b \<longrightarrow> monthName b romanized = None) \<and>
   toNepali b =
     (if 1 \<le> month b \<and> month b \<le> 12 then map fst months ! nat (month b - 1)
      else ascii ''undefined'')
     @ ascii '' '' @ Number_toNepali (day b) @ ascii '', '' @ Number_toNepali (year b)"
proof -
  have "dayName b romanized localized =
          Inl (Error ''You must provide exactly one of :romanized or :localized'')"
    if "romanized \<and> localized"
    using that by (simp add: dayName_def)
  moreover have "toNepali b =
     (if 1 \<le> month b \<and> month b \<le> 12 then map fst months ! nat (month b - 1)
      else ascii ''undefined'')
     @ ascii '' '' @ Number_toNepali (day b) @ ascii '', '' @ Number_toNepali (year b)"
    by (simp add: toNepali_def monthName_cases)
  ultimately show ?thesis
    using dayName_invalid [of b romanized localized] dayName_valid [of b romanized localized]
      monthName_cases [of b romanized]
    by auto
qed

theorem only_dayName_validates_witness:
  "\<not> validDate \<lparr>year = 2000, month = 1, day = 33\<rparr> \<and>
   dayName \<lparr>year = 2000, month = 1, day = 33\<rparr> False False =
     Inl (BSDateOutOfRangeError ''Year 2000 is out of valid range (2000-2090)'') \<and>
   (\<exists>s. monthName \<lparr>year = 2000, month = 1, day = 33\<rparr> False = Some s) \<and>
   validDate \<lparr>year = 2082, month = 5, day = 18\<rparr> \<and>
   (\<exists>s. dayName \<lparr>year = 2082, month = 5, day = 18\<rparr> True False = Inr (Some s)) \<and>
   dayName \<lparr>year = 2082, month = 5, day = 18\<rparr> True True =
     Inl (Error ''You must provide exactly one of :romanized or :localized'') \<and>
   monthName \<lparr>year = 2000, month = 13, day = 25\<rparr> True = None"
proof -
  have v: "\<not> validDate \<lparr>year = 2000, month = 1, day = 33\<rparr>"
    "validDate \<lparr>year = 2082, month = 5, day = 18\<rparr>"
    by code_simp+
  have s: "toString 2000 = ''2000''" by code_simp
  show ?thesis
    using v only_dayName_validates [of "\<lparr>year = 2000, month = 1, day = 33\<rparr>" False False]
      only_dayName_validates [of "\<lparr>year = 2082, month = 5, day = 18\<rparr>" True False]
      only_dayName_validates [of "\<lparr>year = 2082, month = 5, day = 18\<rparr>" True True]
      only_dayName_validates [of "\<lparr>year = 2000, month = 13, day = 25\<rparr>" True True]
    by (simp add: s)
qed

text \<open>
  C10 as stated fails: on the invalid date BS 2000-13-25 \<open>monthName\<close> returns
  \<open>undefined\<close>, not a string; and on the invalid date BS 1999-05-25 \<open>dayName\<close> asked
  for both forms raises the generic error, not \<open>BSDateOutOfRangeError\<close>.
\<close>

theorem monthName_undefined_counterexample:
  "\<not> validDate \<lparr>year = 2000, month = 13, day = 25\<rparr> \<and>
   monthName \<lparr>year = 2000, month = 13, day = 25\<rparr> False = None \<and>
   monthName \<lparr>year = 2000, month = 13, day = 25\<rparr> True = None \<and>
   \<not> validDate \<lparr>year = 1999, month = 5, day = 25\<rparr> \<and>
   dayName \<lparr>year = 1999, month = 5, day = 25\<rparr> True True =
     Inl (Error ''You must provide exactly one of :romanized or :localized'')"
  by code_simp

end
